theory Spec2Isabelle
  imports Complex_Main
begin

section \<open>Rounded arithmetic\<close>

text \<open>
  Binary floating point, as far as two of the properties below need it: a number is
  rounded to the nearest one with \<open>prec\<close> significant bits, ties to the even one, with
  gradual underflow below the exponent \<open>emin\<close>. Overflow is not modelled. \<open>fl64\<close> is the
  rounding of a JavaScript number (binary64), \<open>fl32\<close> that of a GLSL \<^verbatim>\<open>highp float\<close>
  (binary32).
\<close>

definition rne :: "real \<Rightarrow> int" where
  "rne v =
     (let f = \<lfloor>v\<rfloor>; r = v - of_int f
      in if r < 1 / 2 then f
         else if 1 / 2 < r then f + 1
         else if even f then f else f + 1)"

definition round_to :: "nat \<Rightarrow> int \<Rightarrow> real \<Rightarrow> real" where
  "round_to prec emin v =
     (if v = 0 then 0
      else
        (let e = \<lfloor>log 2 \<bar>v\<bar>\<rfloor>;
             k = max (e - int prec + 1) emin;
             u = 2 powr of_int k
         in of_int (rne (v / u)) * u))"

definition fl64 :: "real \<Rightarrow> real" where
  "fl64 v = round_to 53 (- 1074) v"


section \<open>The smoke fragment shader (shader-smoke.js, GLSL source)\<close>




subsection \<open>GLSL built-in functions\<close>















subsection \<open>Hash, value noise and fractional Brownian motion\<close>













subsection \<open>The fragment colour\<close>





section \<open>The WebGL handler (shader-smoke.js, class WebGLHandler)\<close>

text \<open>
  The handler talks to the host: the WebGL 2 context, the console, the window and the
  frame scheduler. Every call it issues is recorded, in order, in the field \<open>calls\<close>
  of the handler's state. What the host answers is a parameter: a \<open>gl_driver\<close> says
  whether a context exists, whether a source of a given stage compiles, whether a
  program with a given list of attached stages links, and what the info logs hold.
\<close>

datatype shader_type = VERTEX_SHADER | FRAGMENT_SHADER

datatype host_call =
    CreateProgram
  | CreateShader shader_type
  | ShaderSource shader_type string
  | CompileShader shader_type
  | DeleteShader shader_type
  | AttachShader shader_type
  | LinkProgram
  | UseProgram
  | GetUniformLocation string
  | Viewport nat nat
  | Uniform1f real
  | Uniform2f real real
  | DrawArrays nat nat
  | ConsoleError "string list"
  | AddResizeListener
  | RequestAnimationFrame

record gl_driver =
  context_available :: bool
  compile_status :: "shader_type \<Rightarrow> string \<Rightarrow> bool"
  shader_info_log :: "shader_type \<Rightarrow> string \<Rightarrow> string"
  link_status :: "shader_type list \<Rightarrow> bool"
  program_info_log :: "shader_type list \<Rightarrow> string"

record handler =
  cn_width :: nat
  cn_height :: nat
  has_gl :: bool
  attached :: "shader_type list"
  startTime :: real
  resize_listener :: bool
  frame_requested :: bool
  calls :: "host_call list"

definition emit :: "host_call list \<Rightarrow> handler \<Rightarrow> handler" where
  "emit cs hs = hs\<lparr>calls := calls hs @ cs\<rparr>"

text \<open>\<^verbatim>\<open>_compile(src, type)\<close>: on a failed compile, log, delete the shader and return.\<close>

definition compile :: "gl_driver \<Rightarrow> string \<Rightarrow> shader_type \<Rightarrow> handler \<Rightarrow> handler" where
  "compile d src ty hs =
     (let hs1 = emit [CreateShader ty, ShaderSource ty src, CompileShader ty] hs
      in if \<not> compile_status d ty src
         then emit [ConsoleError [shader_info_log d ty src], DeleteShader ty] hs1
         else (emit [AttachShader ty] hs1)\<lparr>attached := attached hs1 @ [ty]\<rparr>)"

text \<open>\<^verbatim>\<open>_resize()\<close>, with the window's inner size as arguments.\<close>

definition resize :: "nat \<Rightarrow> nat \<Rightarrow> handler \<Rightarrow> handler" where
  "resize innerWidth innerHeight hs =
     (let hs1 = hs\<lparr>cn_width := innerWidth, cn_height := innerHeight\<rparr>
      in emit [Viewport (cn_width hs1) (cn_height hs1)] hs1)"

text \<open>\<^verbatim>\<open>render\<close>, one invocation; \<open>now\<close> is what \<^verbatim>\<open>Date.now()\<close> returns.\<close>

definition render :: "real \<Rightarrow> handler \<Rightarrow> handler" where
  "render now hs =
     (let t = (now - startTime hs) / 1000
      in (emit [Uniform1f t,
                Uniform2f (real (cn_width hs)) (real (cn_height hs)),
                DrawArrays 0 6,
                RequestAnimationFrame] hs)\<lparr>frame_requested := True\<rparr>)"

definition new_handler :: handler where
  "new_handler =
     \<lparr>cn_width = 0, cn_height = 0, has_gl = False, attached = [], startTime = 0,
      resize_listener = False, frame_requested = False, calls = []\<rparr>"

text \<open>
  The constructor. \<open>vsrc\<close> and \<open>fsrc\<close> are the two shader sources, \<open>iw\<close> and \<open>ih\<close> the
  window's inner size, \<open>now0\<close> and \<open>now1\<close> the two readings of the clock.
\<close>

definition WebGLHandler ::
    "gl_driver \<Rightarrow> string \<Rightarrow> string \<Rightarrow> nat \<Rightarrow> nat \<Rightarrow> real \<Rightarrow> real \<Rightarrow> handler" where
  "WebGLHandler d vsrc fsrc iw ih now0 now1 =
     (if \<not> context_available d then new_handler
      else
        (let hs0 = new_handler\<lparr>has_gl := True\<rparr>;
             hs1 = emit [CreateProgram] hs0;
             hs2 = compile d vsrc VERTEX_SHADER hs1;
             hs3 = compile d fsrc FRAGMENT_SHADER hs2;
             hs4 = emit [LinkProgram] hs3
         in if \<not> link_status d (attached hs4)
            then emit [ConsoleError [''WebGL program failed to link:'',
                                     program_info_log d (attached hs4)]] hs4
            else
              (let hs5 = emit [UseProgram, GetUniformLocation ''time'',
                               GetUniformLocation ''vp''] hs4;
                   hs6 = resize iw ih hs5;
                   hs7 = (emit [AddResizeListener] hs6)\<lparr>resize_listener := True\<rparr>;
                   hs8 = hs7\<lparr>startTime := now0\<rparr>
               in render now1 hs8)))"

text \<open>
  After construction the host delivers events: an animation frame runs the requested
  callback (which is \<^verbatim>\<open>render\<close>, the only callback the handler ever requests), a resize
  runs the listener if one was added.
\<close>

datatype host_event = AnimationFrame real | Resize nat nat

fun dispatch :: "handler \<Rightarrow> host_event \<Rightarrow> handler" where
  "dispatch hs (AnimationFrame now) =
     (if frame_requested hs then render now (hs\<lparr>frame_requested := False\<rparr>) else hs)"
| "dispatch hs (Resize iw ih) =
     (if resize_listener hs then resize iw ih hs else hs)"

definition run_handler ::
    "gl_driver \<Rightarrow> string \<Rightarrow> string \<Rightarrow> nat \<Rightarrow> nat \<Rightarrow> real \<Rightarrow> real \<Rightarrow> host_event list \<Rightarrow> handler" where
  "run_handler d vsrc fsrc iw ih now0 now1 evs =
     foldl dispatch (WebGLHandler d vsrc fsrc iw ih now0 now1) evs"

text \<open>
  Written out for the proofs: the calls the constructor has issued when it reads the link
  status, and the stages attached to the program at that moment.
\<close>

definition setup_calls :: "gl_driver \<Rightarrow> string \<Rightarrow> string \<Rightarrow> host_call list" where
  "setup_calls d vsrc fsrc =
     [CreateProgram] @
     [CreateShader VERTEX_SHADER, ShaderSource VERTEX_SHADER vsrc, CompileShader VERTEX_SHADER] @
     (if compile_status d VERTEX_SHADER vsrc then [AttachShader VERTEX_SHADER]
      else [ConsoleError [shader_info_log d VERTEX_SHADER vsrc], DeleteShader VERTEX_SHADER]) @
     [CreateShader FRAGMENT_SHADER, ShaderSource FRAGMENT_SHADER fsrc, CompileShader FRAGMENT_SHADER] @
     (if compile_status d FRAGMENT_SHADER fsrc then [AttachShader FRAGMENT_SHADER]
      else [ConsoleError [shader_info_log d FRAGMENT_SHADER fsrc], DeleteShader FRAGMENT_SHADER]) @
     [LinkProgram]"

definition attached_at_link :: "gl_driver \<Rightarrow> string \<Rightarrow> string \<Rightarrow> shader_type list" where
  "attached_at_link d vsrc fsrc =
     (if compile_status d VERTEX_SHADER vsrc then [VERTEX_SHADER] else []) @
     (if compile_status d FRAGMENT_SHADER fsrc then [FRAGMENT_SHADER] else [])"

text \<open>
  The contract of the context that the constructor relies on, from the OpenGL ES
  specification of program objects: linking fails if the program does not contain both
  a vertex shader and a fragment shader.
\<close>

definition links_only_complete :: "gl_driver \<Rightarrow> bool" where
  "links_only_complete d =
     (\<forall>att. link_status d att \<longrightarrow> VERTEX_SHADER \<in> set att \<and> FRAGMENT_SHADER \<in> set att)"

definition is_draw :: "host_call \<Rightarrow> bool" where
  "is_draw c = (case c of DrawArrays a b \<Rightarrow> True | _ \<Rightarrow> False)"

text \<open>Sample drivers: one per way of failing, and the sources they are asked about.\<close>

definition driver_of :: "bool \<Rightarrow> bool \<Rightarrow> bool \<Rightarrow> gl_driver" where
  "driver_of vertex_ok fragment_ok link_ok =
     \<lparr>context_available = True,
      compile_status = (\<lambda>ty src. case ty of VERTEX_SHADER \<Rightarrow> vertex_ok
                                            | FRAGMENT_SHADER \<Rightarrow> fragment_ok),
      shader_info_log = (\<lambda>ty src. ''ERROR: 0:1: syntax error''),
      link_status = (\<lambda>att. link_ok \<and> VERTEX_SHADER \<in> set att \<and> FRAGMENT_SHADER \<in> set att),
      program_info_log = (\<lambda>att. ''link failed'')\<rparr>"

text \<open>A driver outside the contract: the vertex stage does not compile, yet programs link.\<close>

definition driver_outside_contract :: gl_driver where
  "driver_outside_contract = (driver_of False True True)\<lparr>link_status := (\<lambda>att. True)\<rparr>"

definition sample_events :: "host_event list" where
  "sample_events = [AnimationFrame 16, Resize 640 480, AnimationFrame 33]"

section \<open>The ember particle system (script.js)\<close>

text \<open>
  A JavaScript number is modelled as a \<^typ>\<open>real\<close>, computed exactly (the flicker of
  line 32 is modelled a second time in binary64, with the suffix 64). The canvas width
  and height are non-negative integers. \<^verbatim>\<open>Math.random()\<close> reads the next element of a
  sequence of draws that is passed along explicitly. The field \<^verbatim>\<open>size\<close> is called
  \<open>size_px\<close> here. The calls that paint the canvas (gradient, arc, fill, clearRect)
  write no field of a particle and are not part of the model.
\<close>

record particle =
  baseX :: real
  x :: real
  y :: real
  baseSize :: real
  size_px :: real
  speed :: real
  drift :: real
  flickerPhase :: real
  loopRadius :: real
  angle :: real
  angularSpeed :: real

type_synonym rng = "nat \<Rightarrow> real"

definition Math_random :: "rng \<Rightarrow> real \<times> rng" where
  "Math_random rs = (rs 0, \<lambda>n. rs (Suc n))"

text \<open>Every draw of \<^verbatim>\<open>Math.random()\<close> lies in the half-open unit interval.\<close>

definition unit_draws :: "rng \<Rightarrow> bool" where
  "unit_draws rs = (\<forall>n. 0 \<le> rs n \<and> rs n < 1)"

text \<open>\<^verbatim>\<open>Math.random() < 0.4 ? Math.random() * 20 + 8 : 0\<close>, at creation and at respawn.\<close>

definition roll_loopRadius :: "rng \<Rightarrow> real \<times> rng" where
  "roll_loopRadius rs =
     (let (r, rs1) = Math_random rs
      in if r < 0.4
         then (let (r', rs2) = Math_random rs1 in (r' * 20 + 8, rs2))
         else (0, rs1))"

text \<open>The body of the set-up loop: one particle, pushed with \<open>x = 0\<close> and then placed.\<close>

definition newEmber :: "nat \<Rightarrow> nat \<Rightarrow> rng \<Rightarrow> particle \<times> rng" where
  "newEmber w h rs =
     (let (r0, rs0) = Math_random rs;
          baseSize0 = r0 * 3 + 2;
          (r1, rs1) = Math_random rs0;
          (r2, rs2) = Math_random rs1;
          (r3, rs3) = Math_random rs2;
          (r4, rs4) = Math_random rs3;
          (r5, rs5) = Math_random rs4;
          (lr, rs6) = roll_loopRadius rs5;
          (r7, rs7) = Math_random rs6;
          (r8, rs8) = Math_random rs7;
          p = \<lparr>baseX = r1 * real w,
               x = 0,
               y = r2 * real h,
               baseSize = baseSize0,
               size_px = baseSize0,
               speed = r3 * 1.2 + 0.8,
               drift = (r4 - 0.5) * 0.4,
               flickerPhase = r5 * pi * 2,
               loopRadius = lr,
               angle = r7 * pi * 2,
               angularSpeed = r8 * 0.08 + 0.04\<rparr>
      in (p\<lparr>x := baseX p + sin (angle p) * loopRadius p\<rparr>, rs8))"

definition EMBER_COUNT :: nat where
  "EMBER_COUNT = 90"

text \<open>The set-up loop, counting the iterations that remain.\<close>

fun pushEmbers :: "nat \<Rightarrow> nat \<Rightarrow> nat \<Rightarrow> particle list \<Rightarrow> rng \<Rightarrow> particle list \<times> rng" where
  "pushEmbers 0 w h ps rs = (ps, rs)"
| "pushEmbers (Suc n) w h ps rs =
     (let (p, rs1) = newEmber w h rs in pushEmbers n w h (ps @ [p]) rs1)"

definition initial_particles :: "nat \<Rightarrow> nat \<Rightarrow> rng \<Rightarrow> particle list \<times> rng" where
  "initial_particles w h rs = pushEmbers EMBER_COUNT w h [] rs"

text \<open>\<^verbatim>\<open>drawEmber(p, t)\<close>: the flicker scalar and the assignment to the current radius.\<close>

definition flicker :: "particle \<Rightarrow> real \<Rightarrow> real" where
  "flicker p t = 0.3 + 0.2 * sin (t * 0.02 + flickerPhase p)"

definition drawEmber :: "particle \<Rightarrow> real \<Rightarrow> particle" where
  "drawEmber p t = p\<lparr>size_px := baseSize p * flicker p t\<rparr>"

text \<open>
  The same two statements in binary64. \<^verbatim>\<open>Math.sin\<close> is the host's: \<open>msin\<close> is a
  parameter, of which only the range is used. \<open>flicker_of_sine\<close> is what line 32 does
  with the value the sine returned.
\<close>

definition flicker_of_sine :: "real \<Rightarrow> real" where
  "flicker_of_sine s = fl64 (fl64 0.3 + fl64 (fl64 0.2 * s))"

definition flicker64 :: "(real \<Rightarrow> real) \<Rightarrow> particle \<Rightarrow> real \<Rightarrow> real" where
  "flicker64 msin p t = flicker_of_sine (msin (fl64 (fl64 (t * fl64 0.02) + flickerPhase p)))"

definition drawEmber64 :: "(real \<Rightarrow> real) \<Rightarrow> particle \<Rightarrow> real \<Rightarrow> particle" where
  "drawEmber64 msin p t = p\<lparr>size_px := fl64 (baseSize p * flicker64 msin p t)\<rparr>"

definition sine_in_range :: "(real \<Rightarrow> real) \<Rightarrow> bool" where
  "sine_in_range msin = (\<forall>a. - 1 \<le> msin a \<and> msin a \<le> 1)"

text \<open>Lines 56 to 65: the rise, and the loop or the drift.\<close>

definition update_position :: "particle \<Rightarrow> particle" where
  "update_position p =
     (let p1 = p\<lparr>y := y p - speed p\<rparr>
      in if loopRadius p1 > 0
         then (let p2 = p1\<lparr>angle := angle p1 + angularSpeed p1\<rparr>;
                   p3 = p2\<lparr>baseX := baseX p2 + drift p2\<rparr>
               in p3\<lparr>x := baseX p3 + sin (angle p3) * loopRadius p3\<rparr>)
         else p1\<lparr>x := x p1 + drift p1\<rparr>)"

text \<open>Lines 69 to 73: the body of the respawn branch.\<close>

definition respawn :: "nat \<Rightarrow> nat \<Rightarrow> particle \<Rightarrow> rng \<Rightarrow> particle \<times> rng" where
  "respawn w h p rs =
     (let p1 = p\<lparr>y := real h + size_px p\<rparr>;
          (r1, rs1) = Math_random rs;
          p2 = p1\<lparr>baseX := r1 * real w\<rparr>;
          (r2, rs2) = Math_random rs1;
          p3 = p2\<lparr>angle := r2 * pi * 2\<rparr>;
          (lr, rs3) = roll_loopRadius rs2;
          p4 = p3\<lparr>loopRadius := lr\<rparr>
      in (p4\<lparr>x := baseX p4 + sin (angle p4) * loopRadius p4\<rparr>, rs3))"

text \<open>Line 68: the test that guards the branch.\<close>

definition respawn_offscreen :: "nat \<Rightarrow> nat \<Rightarrow> particle \<Rightarrow> rng \<Rightarrow> particle \<times> rng" where
  "respawn_offscreen w h p rs = (if y p < - size_px p then respawn w h p rs else (p, rs))"

text \<open>Lines 77 and 78: the two wrap statements, one after the other.\<close>

definition wrap_horizontally :: "nat \<Rightarrow> particle \<Rightarrow> particle" where
  "wrap_horizontally w p =
     (let p1 = (if x p < - 10 then p\<lparr>x := real w + 10\<rparr> else p)
      in if x p1 > real w + 10 then p1\<lparr>x := - 10\<rparr> else p1)"

text \<open>The body of the \<^verbatim>\<open>forEach\<close> callback, for one particle.\<close>

definition animateEmber :: "real \<Rightarrow> nat \<Rightarrow> nat \<Rightarrow> particle \<Rightarrow> rng \<Rightarrow> particle \<times> rng" where
  "animateEmber t w h p rs =
     (let p1 = drawEmber p t;
          p2 = update_position p1;
          (p3, rs1) = respawn_offscreen w h p2 rs
      in (wrap_horizontally w p3, rs1))"

text \<open>
  \<^verbatim>\<open>animateParticles\<close>, one frame: every particle in collection order, each updated in
  its place. \<open>t\<close> is \<^verbatim>\<open>performance.now()\<close>, \<open>w\<close> and \<open>h\<close> the canvas size in this frame.
\<close>

fun animateParticles :: "real \<Rightarrow> nat \<Rightarrow> nat \<Rightarrow> particle list \<Rightarrow> rng \<Rightarrow> particle list \<times> rng" where
  "animateParticles t w h [] rs = ([], rs)"
| "animateParticles t w h (p # ps) rs =
     (let (p', rs1) = animateEmber t w h p rs;
          (ps', rs2) = animateParticles t w h ps rs1
      in (p' # ps', rs2))"

text \<open>
  The frames the scheduler runs, one after the other: each frame has its own time and
  canvas size (a resize between two frames changes the size).
\<close>

fun animation_frames ::
    "(real \<times> nat \<times> nat) list \<Rightarrow> particle list \<Rightarrow> rng \<Rightarrow> particle list \<times> rng" where
  "animation_frames [] ps rs = (ps, rs)"
| "animation_frames ((t, w, h) # fs) ps rs =
     (let (ps1, rs1) = animateParticles t w h ps rs in animation_frames fs ps1 rs1)"

text \<open>Sample inputs: two sequences of draws and three embers.\<close>

definition draws_zero :: rng where
  "draws_zero = (\<lambda>n. 0)"

definition draws_half :: rng where
  "draws_half = (\<lambda>n. 1 / 2)"

definition ember_rising :: particle where
  "ember_rising =
     \<lparr>baseX = 100, x = 100, y = 5, baseSize = 10, size_px = 3, speed = 1,
      drift = 1 / 10, flickerPhase = 0, loopRadius = 0, angle = 0, angularSpeed = 1 / 20\<rparr>"

definition ember_leaving :: particle where
  "ember_leaving = ember_rising\<lparr>y := - 30001 / 10000\<rparr>"

definition ember_looping :: particle where
  "ember_looping = ember_rising\<lparr>baseX := - 40, x := - 32, loopRadius := 8\<rparr>"

section \<open>Properties of rounded arithmetic\<close>

text \<open>
  Rounding is monotone, odd, and leaves every representable number as it is; the
  literals and the few values the proofs below need are evaluated.
\<close>

lemma rne_ge: "of_int n \<le> v \<Longrightarrow> n \<le> rne v"
proof -
  assume "of_int n \<le> v"
  then have "n \<le> \<lfloor>v\<rfloor>" by (simp add: le_floor_iff)
  then show ?thesis by (auto simp: rne_def Let_def)
qed

lemma rne_le: "v \<le> of_int n \<Longrightarrow> rne v \<le> n"
proof -
  assume h: "v \<le> of_int n"
  show ?thesis
  proof (cases "v = of_int n")
    case True
    then show ?thesis by (simp add: rne_def)
  next
    case False
    with h have "v < of_int n" by simp
    then have "\<lfloor>v\<rfloor> < n" by (simp add: floor_less_iff)
    then show ?thesis by (auto simp: rne_def Let_def)
  qed
qed

lemma rne_of_int [simp]: "rne (of_int n) = n"
  by (simp add: rne_def)

lemma rne_mono: "a \<le> b \<Longrightarrow> rne a \<le> rne b"
proof -
  assume ab: "a \<le> b"
  have fl: "\<lfloor>a\<rfloor> \<le> \<lfloor>b\<rfloor>" using ab by (rule floor_mono)
  show ?thesis
  proof (cases "\<lfloor>a\<rfloor> = \<lfloor>b\<rfloor>")
    case True
    with ab show ?thesis by (auto simp: rne_def Let_def)
  next
    case False
    with fl have lt: "\<lfloor>a\<rfloor> + 1 \<le> \<lfloor>b\<rfloor>" by simp
    have "a \<le> of_int (\<lfloor>a\<rfloor> + 1)" by linarith
    then have "rne a \<le> \<lfloor>a\<rfloor> + 1" by (rule rne_le)
    moreover have "\<lfloor>b\<rfloor> \<le> rne b" by (rule rne_ge) simp
    ultimately show ?thesis using lt by linarith
  qed
qed

lemma rne_minus: "rne (- v) = - rne v"
proof (cases "v = of_int \<lfloor>v\<rfloor>")
  case True
  then obtain n where "v = of_int n" ..
  then show ?thesis using rne_of_int [of "- n"] by simp
next
  case False
  then have f: "\<lfloor>- v\<rfloor> = - \<lfloor>v\<rfloor> - 1"
  proof -
    have "\<lfloor>- v\<rfloor> = - \<lceil>v\<rceil>" by (simp add: ceiling_def)
    also have "\<lceil>v\<rceil> = \<lfloor>v\<rfloor> + 1" using False by (simp add: ceiling_altdef)
    finally show ?thesis by simp
  qed
  have r: "0 < v - of_int \<lfloor>v\<rfloor>" using False by (simp add: less_le)
  have r1: "v - of_int \<lfloor>v\<rfloor> < 1" by linarith
  define g where "g = \<lfloor>v\<rfloor>"
  define d where "d = v - of_int g"
  have v: "v = of_int g + d" by (simp add: d_def)
  have d: "0 < d" "d < 1" using r r1 by (simp_all add: d_def g_def)
  have lhs: "rne (- v) = (if 1 - d < 1 / 2 then - g - 1 else if 1 / 2 < 1 - d then - g
       else if even (- g - 1) then - g - 1 else - g)"
    unfolding rne_def Let_def f g_def [symmetric] by (simp add: v)
  have rhs: "rne v = (if d < 1 / 2 then g else if 1 / 2 < d then g + 1
       else if even g then g else g + 1)"
    unfolding rne_def Let_def g_def [symmetric] by (simp add: d_def)
  show ?thesis
    unfolding lhs rhs using d by (auto simp: field_simps)
qed


lemma pow2_pos: "0 < (2::real) powr of_int k"
  by simp

lemma pow2_add: "(2::real) powr of_int (j + k) = 2 powr of_int j * 2 powr of_int k"
  by (simp add: powr_add)

lemma pow2_int: "0 \<le> k \<Longrightarrow> (2::real) powr of_int k = of_int (2 ^ nat k)"
  by (simp add: powr_real_of_int)

lemma pow2_mono: "j \<le> k \<Longrightarrow> (2::real) powr of_int j \<le> 2 powr of_int k"
  by (simp add: powr_mono)

lemma binade:
  assumes "v \<noteq> 0"
  shows "2 powr of_int \<lfloor>log 2 \<bar>v\<bar>\<rfloor> \<le> \<bar>v\<bar> \<and> \<bar>v\<bar> < 2 powr of_int (\<lfloor>log 2 \<bar>v\<bar>\<rfloor> + 1)"
proof -
  have pos: "0 < \<bar>v\<bar>" using assms by simp
  have "(of_int \<lfloor>log 2 \<bar>v\<bar>\<rfloor> \<le> log 2 \<bar>v\<bar>)
      = (2 powr of_int \<lfloor>log 2 \<bar>v\<bar>\<rfloor> \<le> \<bar>v\<bar>)"
    using pos by (intro le_log_iff) simp_all
  then have lo: "2 powr of_int \<lfloor>log 2 \<bar>v\<bar>\<rfloor> \<le> \<bar>v\<bar>"
    using of_int_floor_le [of "log 2 \<bar>v\<bar>"] by blast
  have "log 2 \<bar>v\<bar> < of_int (\<lfloor>log 2 \<bar>v\<bar>\<rfloor> + 1)" by linarith
  then have "\<bar>v\<bar> < 2 powr of_int (\<lfloor>log 2 \<bar>v\<bar>\<rfloor> + 1)"
    using pos by (simp only: log_less_iff [of 2 "\<bar>v\<bar>", OF _ pos] one_less_numeral_iff
        semiring_norm)
  with lo show ?thesis by simp
qed

lemma expo_unique:
  assumes "2 powr of_int e \<le> \<bar>v\<bar>" and "\<bar>v\<bar> < 2 powr of_int (e + 1)"
  shows "\<lfloor>log 2 \<bar>v\<bar>\<rfloor> = e"
proof -
  have pos: "0 < \<bar>v\<bar>" using assms(1) pow2_pos [of e] by linarith
  have "of_int e \<le> log 2 \<bar>v\<bar>" using assms(1) pos by (simp add: le_log_iff)
  moreover have "log 2 \<bar>v\<bar> < of_int (e + 1)"
    using assms(2) pos by (simp only: log_less_iff [of 2 "\<bar>v\<bar>", OF _ pos] one_less_numeral_iff
        semiring_norm)
  ultimately show ?thesis by (intro floor_unique) simp_all
qed

lemma round_to_eval:
  assumes "2 powr of_int e \<le> \<bar>v\<bar>" and "\<bar>v\<bar> < 2 powr of_int (e + 1)"
  shows "round_to prec emin v =
     of_int (rne (v / 2 powr of_int (max (e - int prec + 1) emin)))
       * 2 powr of_int (max (e - int prec + 1) emin)"
proof -
  have "v \<noteq> 0" using assms(1) pow2_pos [of e] by auto
  then show ?thesis
    by (simp add: round_to_def Let_def expo_unique [OF assms])
qed

lemma round_to_zero [simp]: "round_to prec emin 0 = 0"
  by (simp add: round_to_def)

lemma round_to_minus: "round_to prec emin (- v) = - round_to prec emin v"
  by (simp add: round_to_def Let_def rne_minus)

lemma round_to_nonneg: "0 \<le> v \<Longrightarrow> 0 \<le> round_to prec emin v"
proof -
  assume v: "0 \<le> v"
  have "0 \<le> rne (v / 2 powr of_int k)" for k
    by (rule rne_ge) (use v in simp)
  then show ?thesis by (simp add: round_to_def Let_def)
qed

lemma round_to_mono_pos:
  assumes "0 < a" and "a \<le> b" and "0 < prec"
  shows "round_to prec emin a \<le> round_to prec emin b"
proof -
  define ea where "ea = \<lfloor>log 2 \<bar>a\<bar>\<rfloor>"
  define eb where "eb = \<lfloor>log 2 \<bar>b\<bar>\<rfloor>"
  define ka where "ka = max (ea - int prec + 1) emin"
  define kb where "kb = max (eb - int prec + 1) emin"
  have bpos: "0 < b" using assms by simp
  have ra: "round_to prec emin a = of_int (rne (a / 2 powr of_int ka)) * 2 powr of_int ka"
    using assms(1) by (simp add: round_to_def Let_def ea_def ka_def)
  have rb: "round_to prec emin b = of_int (rne (b / 2 powr of_int kb)) * 2 powr of_int kb"
    using bpos by (simp add: round_to_def Let_def eb_def kb_def)
  have "log 2 a \<le> log 2 b" using assms by simp
  then have eab: "ea \<le> eb"
    unfolding ea_def eb_def using assms(1) bpos by (simp add: floor_mono)
  then have kab: "ka \<le> kb" by (simp add: ka_def kb_def)
  show ?thesis
  proof (cases "ka = kb")
    case True
    have "a / 2 powr of_int kb \<le> b / 2 powr of_int kb"
      using assms(2) by (simp add: divide_right_mono)
    then have "rne (a / 2 powr of_int kb) \<le> rne (b / 2 powr of_int kb)" by (rule rne_mono)
    then show ?thesis
      unfolding ra rb True by (simp add: mult_right_mono)
  next
    case False
    with kab have lt: "ka < kb" by simp
    then have kb: "kb = eb - int prec + 1" by (auto simp: ka_def kb_def)
    have ealt: "ea + 1 \<le> eb" using lt kb by (simp add: ka_def)
    have kle: "ka \<le> eb" using lt kb assms(3) by simp
    have ba: "\<bar>a\<bar> < 2 powr of_int (ea + 1)" and bb: "2 powr of_int eb \<le> \<bar>b\<bar>"
      using binade [of a] binade [of b] assms(1) bpos by (simp_all add: ea_def eb_def)
    have "\<bar>a\<bar> = a" using assms(1) by simp
    then have up: "a \<le> 2 powr of_int eb"
      using ba pow2_mono [OF ealt] by linarith
    have "a / 2 powr of_int ka \<le> 2 powr of_int eb / 2 powr of_int ka"
      using up by (simp add: divide_right_mono)
    also have "2 powr of_int eb / 2 powr of_int ka = (2::real) powr of_int (eb - ka)"
      by (simp add: powr_diff)
    also have "\<dots> = of_int (2 ^ nat (eb - ka))" using kle by (intro pow2_int) simp
    finally have "rne (a / 2 powr of_int ka) \<le> 2 ^ nat (eb - ka)" by (rule rne_le)
    then have "(of_int (rne (a / 2 powr of_int ka)) :: real) \<le> of_int (2 ^ nat (eb - ka))"
      by (simp only: of_int_le_iff)
    then have "of_int (rne (a / 2 powr of_int ka)) * 2 powr of_int ka
        \<le> of_int (2 ^ nat (eb - ka)) * (2::real) powr of_int ka"
      by (rule mult_right_mono) simp
    also have "of_int (2 ^ nat (eb - ka)) * (2::real) powr of_int ka = 2 powr of_int eb"
    proof -
      have "of_int (2 ^ nat (eb - ka)) = (2::real) powr of_int (eb - ka)"
        using kle by (intro pow2_int [symmetric]) simp
      then have "of_int (2 ^ nat (eb - ka)) * (2::real) powr of_int ka
          = 2 powr of_int (eb - ka + ka)"
        by (simp only: pow2_add)
      then show ?thesis by simp
    qed
    finally have A: "round_to prec emin a \<le> 2 powr of_int eb" by (simp add: ra)
    have pk: "0 \<le> eb - kb" using kb assms(3) by simp
    have "2 powr of_int eb / 2 powr of_int kb \<le> b / 2 powr of_int kb"
      using bb bpos by (simp add: divide_right_mono)
    moreover have "2 powr of_int eb / 2 powr of_int kb = (2::real) powr of_int (eb - kb)"
      by (simp add: powr_diff)
    moreover have "(2::real) powr of_int (eb - kb) = of_int (2 ^ nat (eb - kb))"
      using pk by (intro pow2_int)
    ultimately have "of_int (2 ^ nat (eb - kb)) \<le> b / 2 powr of_int kb" by simp
    then have "2 ^ nat (eb - kb) \<le> rne (b / 2 powr of_int kb)" by (rule rne_ge)
    then have "(of_int (2 ^ nat (eb - kb)) :: real) \<le> of_int (rne (b / 2 powr of_int kb))"
      by (simp only: of_int_le_iff)
    then have "of_int (2 ^ nat (eb - kb)) * (2::real) powr of_int kb
        \<le> of_int (rne (b / 2 powr of_int kb)) * 2 powr of_int kb"
      by (rule mult_right_mono) simp
    moreover have "of_int (2 ^ nat (eb - kb)) * (2::real) powr of_int kb = 2 powr of_int eb"
    proof -
      have "of_int (2 ^ nat (eb - kb)) = (2::real) powr of_int (eb - kb)"
        using pk by (intro pow2_int [symmetric])
      then have "of_int (2 ^ nat (eb - kb)) * (2::real) powr of_int kb
          = 2 powr of_int (eb - kb + kb)"
        by (simp only: pow2_add)
      then show ?thesis by simp
    qed
    ultimately have B: "2 powr of_int eb \<le> round_to prec emin b"
      unfolding rb by linarith
    from A B show ?thesis by linarith
  qed
qed

lemma round_to_mono:
  assumes "a \<le> b" and "0 < prec"
  shows "round_to prec emin a \<le> round_to prec emin b"
proof -
  consider "0 < a" | "a \<le> 0" "0 \<le> b" | "b < 0" by linarith
  then show ?thesis
  proof cases
    case 1
    then show ?thesis using assms by (intro round_to_mono_pos)
  next
    case 2
    have "0 \<le> round_to prec emin (- a)" using 2 by (intro round_to_nonneg) simp
    then have "round_to prec emin a \<le> 0" by (simp add: round_to_minus)
    moreover have "0 \<le> round_to prec emin b" using 2 by (intro round_to_nonneg)
    ultimately show ?thesis by linarith
  next
    case 3
    have "round_to prec emin (- b) \<le> round_to prec emin (- a)"
      using 3 assms by (intro round_to_mono_pos) simp_all
    then show ?thesis by (simp add: round_to_minus)
  qed
qed

lemma round_to_representable:
  assumes "\<bar>m\<bar> < 2 ^ prec" and "emin \<le> k"
  shows "round_to prec emin (of_int m * 2 powr of_int k) = of_int m * 2 powr of_int k"
proof (cases "m = 0")
  case True
  then show ?thesis by simp
next
  case False
  define v where "v = of_int m * (2::real) powr of_int k"
  define e where "e = \<lfloor>log 2 \<bar>v\<bar>\<rfloor>"
  define K where "K = max (e - int prec + 1) emin"
  have v0: "v \<noteq> 0" using False by (simp add: v_def)
  have absv: "\<bar>v\<bar> = of_int \<bar>m\<bar> * 2 powr of_int k" by (simp add: v_def abs_mult)
  have "of_int \<bar>m\<bar> < (2::real) ^ prec"
    using assms(1) by (metis of_int_less_iff of_int_numeral of_int_power)
  then have "\<bar>v\<bar> < 2 ^ prec * 2 powr of_int k"
    unfolding absv by (intro mult_strict_right_mono) simp_all
  also have "(2::real) ^ prec * 2 powr of_int k = 2 powr of_int (int prec + k)"
    by (simp add: powr_add powr_realpow)
  finally have hi: "\<bar>v\<bar> < 2 powr of_int (int prec + k)" .
  have "2 powr of_int e \<le> \<bar>v\<bar>" using binade [OF v0] by (simp add: e_def)
  with hi have "(2::real) powr of_int e < 2 powr of_int (int prec + k)" by linarith
  then have "e < int prec + k" by simp
  then have Kk: "K \<le> k" using assms(2) by (simp add: K_def)
  have "v / 2 powr of_int K = of_int m * (2 powr of_int k / 2 powr of_int K)" by (simp add: v_def)
  also have "2 powr of_int k / 2 powr of_int K = (2::real) powr of_int (k - K)"
    by (simp add: powr_diff)
  also have "\<dots> = of_int (2 ^ nat (k - K))" using Kk by (intro pow2_int) simp
  finally have q: "v / 2 powr of_int K = of_int (m * 2 ^ nat (k - K))" by simp
  have "round_to prec emin v = of_int (rne (v / 2 powr of_int K)) * 2 powr of_int K"
    using v0 by (simp add: round_to_def Let_def e_def K_def)
  also have "\<dots> = v / 2 powr of_int K * 2 powr of_int K"
    unfolding q rne_of_int ..
  also have "\<dots> = v" by simp
  finally show ?thesis by (simp add: v_def)
qed

lemma fl64_mono: "a \<le> b \<Longrightarrow> fl64 a \<le> fl64 b"
  unfolding fl64_def by (rule round_to_mono) simp_all


lemma fl64_minus: "fl64 (- v) = - fl64 v"
  by (simp add: fl64_def round_to_minus)

lemma fl64_exact:
  assumes "\<bar>m\<bar> < 2 ^ 53" and "- 1074 \<le> k"
  shows "fl64 (of_int m * 2 powr of_int k) = of_int m * 2 powr of_int k"
  unfolding fl64_def using assms by (rule round_to_representable)


lemma fl64_three_tenths: "fl64 0.3 = 5404319552844595 / 2 ^ 54"
proof -
  have "fl64 0.3 = of_int (rne (0.3 / 2 powr of_int (max (- 2 - int 53 + 1) (- 1074))))
       * 2 powr of_int (max (- 2 - int 53 + 1) (- 1074))"
    unfolding fl64_def by (rule round_to_eval) (simp_all add: powr_neg_numeral)
  also have "\<dots> = 5404319552844595 / 2 ^ 54"
    by (simp add: rne_def Let_def powr_neg_numeral)
  finally show ?thesis .
qed

lemma fl64_two_tenths: "fl64 0.2 = 3602879701896397 / 2 ^ 54"
proof -
  have "fl64 0.2 = of_int (rne (0.2 / 2 powr of_int (max (- 3 - int 53 + 1) (- 1074))))
       * 2 powr of_int (max (- 3 - int 53 + 1) (- 1074))"
    unfolding fl64_def by (rule round_to_eval) (simp_all add: powr_neg_numeral)
  also have "\<dots> = 3602879701896397 / 2 ^ 54"
    by (simp add: rne_def Let_def powr_neg_numeral)
  finally show ?thesis .
qed






lemma fl64_half: "fl64 (1 / 2) = 1 / 2"
  using fl64_exact [of 1 "- 1"] by (simp add: powr_neg_numeral)

lemma fl64_trough: "fl64 (1801439850948198 / 2 ^ 54) = 1801439850948198 / 2 ^ 54"
  using fl64_exact [of 1801439850948198 "- 54"] by (simp add: powr_neg_numeral)

lemma fl64_two_tenths_fixed: "fl64 (3602879701896397 / 2 ^ 54) = 3602879701896397 / 2 ^ 54"
  using fl64_exact [of 3602879701896397 "- 54"] by (simp add: powr_neg_numeral)

lemma flicker_of_sine_trough: "flicker_of_sine (- 1) = 1801439850948198 / 2 ^ 54"
proof -
  have m: "3602879701896397 / 2 ^ 54 * - 1 = - (3602879701896397 / 2 ^ 54 :: real)" by simp
  have d: "(5404319552844595 / 2 ^ 54 + - (3602879701896397 / 2 ^ 54) :: real)
      = 1801439850948198 / 2 ^ 54" by simp
  show ?thesis
    unfolding flicker_of_sine_def fl64_three_tenths fl64_two_tenths m fl64_minus
      fl64_two_tenths_fixed d fl64_trough ..
qed

lemma flicker_of_sine_bounds:
  assumes "- 1 \<le> s" and "s \<le> 1"
  shows "1801439850948198 / 2 ^ 54 \<le> flicker_of_sine s \<and> flicker_of_sine s \<le> 1 / 2"
proof -
  let ?c2 = "3602879701896397 / 2 ^ 54 :: real"
  let ?c3 = "5404319552844595 / 2 ^ 54 :: real"
  have "- ?c2 \<le> ?c2 * s" using assms by simp
  then have "fl64 (- ?c2) \<le> fl64 (?c2 * s)" by (rule fl64_mono)
  then have lo: "- ?c2 \<le> fl64 (?c2 * s)"
    by (simp only: fl64_minus fl64_two_tenths_fixed)
  have "?c2 * s \<le> ?c2" using assms by simp
  then have "fl64 (?c2 * s) \<le> fl64 ?c2" by (rule fl64_mono)
  then have hi: "fl64 (?c2 * s) \<le> ?c2"
    by (simp only: fl64_two_tenths_fixed)
  have "1801439850948198 / 2 ^ 54 \<le> ?c3 + fl64 (?c2 * s)" using lo by simp
  then have "fl64 (1801439850948198 / 2 ^ 54) \<le> fl64 (?c3 + fl64 (?c2 * s))"
    by (rule fl64_mono)
  then have A: "1801439850948198 / 2 ^ 54 \<le> fl64 (?c3 + fl64 (?c2 * s))"
    by (simp only: fl64_trough)
  have "?c3 + fl64 (?c2 * s) \<le> 1 / 2" using hi by simp
  then have "fl64 (?c3 + fl64 (?c2 * s)) \<le> fl64 (1 / 2)" by (rule fl64_mono)
  then have B: "fl64 (?c3 + fl64 (?c2 * s)) \<le> 1 / 2"
    by (simp only: fl64_half)
  from A B show ?thesis
    unfolding flicker_of_sine_def fl64_three_tenths fl64_two_tenths by simp
qed







lemma fl64_two: "fl64 2 = 2"
  using fl64_exact [of 1 1] by simp

lemma fl64_eighth: "fl64 (1 / 8) = 1 / 8"
  using fl64_exact [of 1 "- 3"] by (simp add: powr_neg_numeral)

lemma fl64_zero: "fl64 0 = 0"
  by (simp add: fl64_def)

lemma created_baseSize64: "0 \<le> r \<Longrightarrow> 2 \<le> fl64 (fl64 (r * 3) + 2)"
proof -
  assume "0 \<le> r"
  then have "fl64 0 \<le> fl64 (r * 3)" by (intro fl64_mono) simp
  then have "2 \<le> fl64 (r * 3) + 2" by (simp add: fl64_zero)
  then have "fl64 2 \<le> fl64 (fl64 (r * 3) + 2)" by (rule fl64_mono)
  then show ?thesis by (simp add: fl64_two)
qed

lemma pow2_pred: "(2::real) powr of_int (k - 1) = 2 powr of_int k / 2"
proof -
  have "(2::real) powr of_int k = 2 powr of_int (k - 1 + 1)" by simp
  also have "\<dots> = 2 powr of_int (k - 1) * 2 powr of_int 1" by (rule pow2_add)
  finally show ?thesis by simp
qed

lemma round_to_half:
  assumes "v \<noteq> 0" and "emin < \<lfloor>log 2 \<bar>v\<bar>\<rfloor> - int prec + 1"
  shows "round_to prec emin (v / 2) = round_to prec emin v / 2"
proof -
  define e where "e = \<lfloor>log 2 \<bar>v\<bar>\<rfloor>"
  have b: "2 powr of_int e \<le> \<bar>v\<bar>" "\<bar>v\<bar> < 2 powr of_int (e + 1)"
    using binade [OF assms(1)] by (simp_all add: e_def)
  have p: "(2::real) powr of_int (e - 1) = 2 powr of_int e / 2"
    "(2::real) powr of_int (e - 1 + 1) = 2 powr of_int (e + 1) / 2"
    using pow2_pred [of e] pow2_pred [of "e + 1"] by simp_all
  have h: "2 powr of_int (e - 1) \<le> \<bar>v / 2\<bar>" "\<bar>v / 2\<bar> < 2 powr of_int (e - 1 + 1)"
    unfolding p using b by simp_all
  have k: "max (e - 1 - int prec + 1) emin = (e - int prec + 1) - 1"
    "max (e - int prec + 1) emin = e - int prec + 1"
    using assms(2) by (simp_all add: e_def)
  have u: "(2::real) powr of_int (e - int prec + 1 - 1) = 2 powr of_int (e - int prec + 1) / 2"
    by (rule pow2_pred)
  have "round_to prec emin (v / 2)
      = of_int (rne (v / 2 / (2 powr of_int (e - int prec + 1) / 2)))
        * (2 powr of_int (e - int prec + 1) / 2)"
    unfolding round_to_eval [OF h] k u ..
  moreover have "round_to prec emin v
      = of_int (rne (v / 2 powr of_int (e - int prec + 1))) * 2 powr of_int (e - int prec + 1)"
    unfolding round_to_eval [OF b] k ..
  ultimately show ?thesis by simp
qed

lemma fl64_halved:
  assumes "2 \<le> b" and "fl64 b = b"
  shows "fl64 (b / 2) = b / 2"
proof -
  have "1 \<le> log 2 \<bar>b\<bar>" using assms(1) by (simp add: le_log_iff)
  then have f: "1 \<le> \<lfloor>log 2 \<bar>b\<bar>\<rfloor>" by (simp add: le_floor_iff)
  from f have "- 1074 < \<lfloor>log 2 \<bar>b\<bar>\<rfloor> - int 53 + 1" by linarith
  moreover have "b \<noteq> 0" using assms(1) by simp
  ultimately have "fl64 (b / 2) = fl64 b / 2"
    unfolding fl64_def by (intro round_to_half)
  then show ?thesis by (simp add: assms(2))
qed



lemma flicker64_bounds:
  assumes "sine_in_range msin"
  shows "1801439850948198 / 2 ^ 54 \<le> flicker64 msin p t \<and> flicker64 msin p t \<le> 1 / 2"
  unfolding flicker64_def
  using assms by (intro flicker_of_sine_bounds) (simp_all add: sine_in_range_def)

lemma drawEmber64_size: "size_px (drawEmber64 msin p t) = fl64 (baseSize p * flicker64 msin p t)"
  by (simp add: drawEmber64_def)

lemma size64_positive:
  assumes "sine_in_range msin" and "2 \<le> baseSize p"
  shows "1 / 8 \<le> size_px (drawEmber64 msin p t)"
proof -
  have "1 / 16 \<le> flicker64 msin p t"
    using flicker64_bounds [OF assms(1), of p t] by simp
  then have "2 * (1 / 16) \<le> baseSize p * flicker64 msin p t"
    using assms(2) by (intro mult_mono) simp_all
  then have "1 / 8 \<le> baseSize p * flicker64 msin p t" by simp
  then have "fl64 (1 / 8) \<le> fl64 (baseSize p * flicker64 msin p t)" by (rule fl64_mono)
  then show ?thesis by (simp only: fl64_eighth drawEmber64_size)
qed

lemma size64_half:
  assumes "sine_in_range msin" and "2 \<le> baseSize p" and "fl64 (baseSize p) = baseSize p"
  shows "size_px (drawEmber64 msin p t) \<le> baseSize p / 2"
proof -
  have "baseSize p * flicker64 msin p t \<le> baseSize p * (1 / 2)"
    using flicker64_bounds [OF assms(1), of p t] assms(2) by (intro mult_left_mono) simp_all
  then have "baseSize p * flicker64 msin p t \<le> baseSize p / 2" by simp
  then have "fl64 (baseSize p * flicker64 msin p t) \<le> fl64 (baseSize p / 2)" by (rule fl64_mono)
  then show ?thesis by (simp only: fl64_halved [OF assms(2,3)] drawEmber64_size)
qed

section \<open>Properties of the shader\<close>























section \<open>Properties of the WebGL handler\<close>

lemma emit_simps [simp]:
  "calls (emit cs hs) = calls hs @ cs"
  "attached (emit cs hs) = attached hs"
  "frame_requested (emit cs hs) = frame_requested hs"
  "resize_listener (emit cs hs) = resize_listener hs"
  by (simp_all add: emit_def)

lemma link_fails:
  assumes "links_only_complete d"
    and "\<not> compile_status d VERTEX_SHADER vsrc \<or> \<not> compile_status d FRAGMENT_SHADER fsrc"
  shows "\<not> link_status d (attached_at_link d vsrc fsrc)"
  using assms unfolding links_only_complete_def attached_at_link_def
  by (cases "compile_status d VERTEX_SHADER vsrc"; cases "compile_status d FRAGMENT_SHADER fsrc")
     auto

lemma failed_constructor:
  assumes "context_available d" "\<not> link_status d (attached_at_link d vsrc fsrc)"
  shows "WebGLHandler d vsrc fsrc iw ih now0 now1 =
     new_handler\<lparr>has_gl := True, attached := attached_at_link d vsrc fsrc,
       calls := setup_calls d vsrc fsrc @
         [ConsoleError [''WebGL program failed to link:'',
                        program_info_log d (attached_at_link d vsrc fsrc)]]\<rparr>"
  using assms
  by (cases "compile_status d VERTEX_SHADER vsrc"; cases "compile_status d FRAGMENT_SHADER fsrc")
     (simp_all add: WebGLHandler_def Let_def compile_def emit_def new_handler_def
      attached_at_link_def setup_calls_def)

lemma inert_dispatch:
  "\<not> frame_requested hs \<Longrightarrow> \<not> resize_listener hs \<Longrightarrow> foldl dispatch hs evs = hs"
proof (induction evs)
  case Nil
  then show ?case by simp
next
  case (Cons ev evs)
  then show ?case by (cases ev) simp_all
qed

lemma setup_no_draw: "c \<in> set (setup_calls d vsrc fsrc) \<Longrightarrow> \<not> is_draw c"
  by (auto simp: setup_calls_def is_draw_def split: if_splits)

text \<open>
  C4. Let the vertex stage or the fragment stage fail to compile, on a context whose
  programs link only with both stages attached, or let the program fail to link. Then
  the info log of each shader that failed to compile is written with \<^verbatim>\<open>console.error\<close>
  and that shader is deleted, the link failure is logged as well, and the constructor
  returns before it starts the render loop. No frame is requested and no resize
  listener is added, so whatever events the host delivers afterwards change nothing: no
  \<^verbatim>\<open>drawArrays\<close> is ever issued.
\<close>

theorem shader_failure_leaves_handler_inert:
  assumes "context_available d"
    and "links_only_complete d \<and>
           (\<not> compile_status d VERTEX_SHADER vsrc \<or> \<not> compile_status d FRAGMENT_SHADER fsrc) \<or>
         \<not> link_status d (attached_at_link d vsrc fsrc)"
  shows "run_handler d vsrc fsrc iw ih now0 now1 evs = WebGLHandler d vsrc fsrc iw ih now0 now1 \<and>
    \<not> frame_requested (run_handler d vsrc fsrc iw ih now0 now1 evs) \<and>
    \<not> resize_listener (run_handler d vsrc fsrc iw ih now0 now1 evs) \<and>
    (\<forall>c \<in> set (calls (run_handler d vsrc fsrc iw ih now0 now1 evs)). \<not> is_draw c) \<and>
    DrawArrays 0 6 \<notin> set (calls (run_handler d vsrc fsrc iw ih now0 now1 evs)) \<and>
    (\<not> compile_status d VERTEX_SHADER vsrc \<longrightarrow>
       ConsoleError [shader_info_log d VERTEX_SHADER vsrc]
         \<in> set (calls (run_handler d vsrc fsrc iw ih now0 now1 evs)) \<and>
       DeleteShader VERTEX_SHADER \<in> set (calls (run_handler d vsrc fsrc iw ih now0 now1 evs))) \<and>
    (\<not> compile_status d FRAGMENT_SHADER fsrc \<longrightarrow>
       ConsoleError [shader_info_log d FRAGMENT_SHADER fsrc]
         \<in> set (calls (run_handler d vsrc fsrc iw ih now0 now1 evs)) \<and>
       DeleteShader FRAGMENT_SHADER \<in> set (calls (run_handler d vsrc fsrc iw ih now0 now1 evs))) \<and>
    ConsoleError [''WebGL program failed to link:'',
                  program_info_log d (attached (run_handler d vsrc fsrc iw ih now0 now1 evs))]
       \<in> set (calls (run_handler d vsrc fsrc iw ih now0 now1 evs))"
proof -
  let ?hs = "WebGLHandler d vsrc fsrc iw ih now0 now1"
  have nolink: "\<not> link_status d (attached_at_link d vsrc fsrc)"
    using assms(2) link_fails [of d vsrc fsrc] by blast
  note c = failed_constructor [OF assms(1) nolink, of iw ih now0 now1]
  have quiet: "\<not> frame_requested ?hs" "\<not> resize_listener ?hs"
    by (simp_all add: c new_handler_def)
  have run: "run_handler d vsrc fsrc iw ih now0 now1 evs = ?hs"
    unfolding run_handler_def using quiet by (rule inert_dispatch)
  have nodraw: "\<forall>c \<in> set (calls ?hs). \<not> is_draw c"
    by (auto simp: c dest: setup_no_draw simp: is_draw_def)
  then have nodraw6: "DrawArrays 0 6 \<notin> set (calls ?hs)"
    by (auto simp: is_draw_def)
  have vlog: "\<not> compile_status d VERTEX_SHADER vsrc \<longrightarrow>
       ConsoleError [shader_info_log d VERTEX_SHADER vsrc] \<in> set (calls ?hs) \<and>
       DeleteShader VERTEX_SHADER \<in> set (calls ?hs)"
    by (simp add: c setup_calls_def)
  have flog: "\<not> compile_status d FRAGMENT_SHADER fsrc \<longrightarrow>
       ConsoleError [shader_info_log d FRAGMENT_SHADER fsrc] \<in> set (calls ?hs) \<and>
       DeleteShader FRAGMENT_SHADER \<in> set (calls ?hs)"
    by (simp add: c setup_calls_def)
  have llog: "ConsoleError [''WebGL program failed to link:'', program_info_log d (attached ?hs)]
       \<in> set (calls ?hs)"
    by (simp add: c)
  show ?thesis
    unfolding run using quiet nodraw nodraw6 vlog flog llog by simp
qed

theorem shader_failure_leaves_handler_inert_witness:
  "context_available (driver_of False True True) \<and>
   links_only_complete (driver_of False True True) \<and>
   \<not> compile_status (driver_of False True True) VERTEX_SHADER ''void main() {'' \<and>
   \<not> frame_requested (run_handler (driver_of False True True) ''void main() {'' ''void main() {}''
        800 600 1000 1001 sample_events) \<and>
   DeleteShader VERTEX_SHADER \<in> set (calls (run_handler (driver_of False True True)
        ''void main() {'' ''void main() {}'' 800 600 1000 1001 sample_events)) \<and>
   DrawArrays 0 6 \<notin> set (calls (run_handler (driver_of False True True)
        ''void main() {'' ''void main() {}'' 800 600 1000 1001 sample_events)) \<and>
   context_available (driver_of True False True) \<and>
   links_only_complete (driver_of True False True) \<and>
   \<not> compile_status (driver_of True False True) FRAGMENT_SHADER ''void main() {'' \<and>
   DeleteShader FRAGMENT_SHADER \<in> set (calls (run_handler (driver_of True False True)
        ''void main() {}'' ''void main() {'' 800 600 1000 1001 sample_events)) \<and>
   DrawArrays 0 6 \<notin> set (calls (run_handler (driver_of True False True)
        ''void main() {}'' ''void main() {'' 800 600 1000 1001 sample_events)) \<and>
   context_available (driver_of True True False) \<and>
   \<not> link_status (driver_of True True False)
        (attached_at_link (driver_of True True False) ''void main() {}'' ''void main() {}'') \<and>
   \<not> frame_requested (run_handler (driver_of True True False) ''void main() {}'' ''void main() {}''
        800 600 1000 1001 sample_events) \<and>
   DrawArrays 0 6 \<notin> set (calls (run_handler (driver_of True True False)
        ''void main() {}'' ''void main() {}'' 800 600 1000 1001 sample_events))"
proof -
  have ctx: "context_available (driver_of v f l)" for v f l
    by (simp add: driver_of_def)
  have con: "links_only_complete (driver_of v f l)" for v f l
    by (simp add: driver_of_def links_only_complete_def)
  have f1: "\<not> compile_status (driver_of False True True) VERTEX_SHADER ''void main() {''"
    by (simp add: driver_of_def)
  have f2: "\<not> compile_status (driver_of True False True) FRAGMENT_SHADER ''void main() {''"
    by (simp add: driver_of_def)
  have f3: "\<not> link_status (driver_of True True False)
        (attached_at_link (driver_of True True False) ''void main() {}'' ''void main() {}'')"
    by (simp add: driver_of_def)
  have c1: "links_only_complete (driver_of False True True) \<and>
      (\<not> compile_status (driver_of False True True) VERTEX_SHADER ''void main() {'' \<or>
       \<not> compile_status (driver_of False True True) FRAGMENT_SHADER ''void main() {}'') \<or>
      \<not> link_status (driver_of False True True)
         (attached_at_link (driver_of False True True) ''void main() {'' ''void main() {}'')"
    using f1 con by blast
  have c2: "links_only_complete (driver_of True False True) \<and>
      (\<not> compile_status (driver_of True False True) VERTEX_SHADER ''void main() {}'' \<or>
       \<not> compile_status (driver_of True False True) FRAGMENT_SHADER ''void main() {'') \<or>
      \<not> link_status (driver_of True False True)
         (attached_at_link (driver_of True False True) ''void main() {}'' ''void main() {'')"
    using f2 con by blast
  have c3: "links_only_complete (driver_of True True False) \<and>
      (\<not> compile_status (driver_of True True False) VERTEX_SHADER ''void main() {}'' \<or>
       \<not> compile_status (driver_of True True False) FRAGMENT_SHADER ''void main() {}'') \<or>
      \<not> link_status (driver_of True True False)
         (attached_at_link (driver_of True True False) ''void main() {}'' ''void main() {}'')"
    using f3 by blast
  show ?thesis
    using shader_failure_leaves_handler_inert [OF ctx c1, of 800 600 1000 1001 sample_events]
      shader_failure_leaves_handler_inert [OF ctx c2, of 800 600 1000 1001 sample_events]
      shader_failure_leaves_handler_inert [OF ctx c3, of 800 600 1000 1001 sample_events]
      ctx con f1 f2 f3
    by blast
qed

text \<open>
  Two controls. With a driver on which everything succeeds the constructor does draw.
  And the hypothesis on linking is needed: the constructor does not look at what
  \<^verbatim>\<open>_compile\<close> did, so on a driver outside the contract, where a program links although
  its vertex stage did not compile, the constructor draws.
\<close>

lemma outside_contract_draws:
  "\<not> compile_status driver_outside_contract VERTEX_SHADER vsrc \<and>
   DrawArrays 0 6 \<in> set (calls (WebGLHandler driver_outside_contract vsrc fsrc iw ih now0 now1))"
  by (simp add: WebGLHandler_def driver_outside_contract_def driver_of_def Let_def compile_def
      emit_def new_handler_def render_def resize_def)

lemma working_driver_draws:
  "DrawArrays 0 6 \<in> set (calls (WebGLHandler (driver_of True True True) vsrc fsrc iw ih now0 now1))"
  by (simp add: WebGLHandler_def driver_of_def Let_def compile_def emit_def new_handler_def
      render_def resize_def)

section \<open>Properties of the ember particle system\<close>

lemma Math_random_simps [simp]:
  "fst (Math_random rs) = rs 0"
  "snd (Math_random rs) = (\<lambda>n. rs (Suc n))"
  by (simp_all add: Math_random_def)

lemma unit_drawsD: "unit_draws rs \<Longrightarrow> 0 \<le> rs n \<and> rs n < 1"
  by (simp add: unit_draws_def)

lemma roll_loopRadius_value:
  "fst (roll_loopRadius rs) = (if rs 0 < 0.4 then rs 1 * 20 + 8 else 0)"
  by (simp add: roll_loopRadius_def Math_random_def)

lemma flicker_range: "0.1 \<le> flicker p t \<and> flicker p t \<le> 0.5"
  using sin_ge_minus_one [of "t * 0.02 + flickerPhase p"] sin_le_one [of "t * 0.02 + flickerPhase p"]
  unfolding flicker_def by linarith

lemma respawn_result:
  "fst (respawn w h q rs) =
     q\<lparr>y := real h + size_px q,
       baseX := rs 0 * real w,
       angle := rs 1 * pi * 2,
       loopRadius := (if rs 2 < 0.4 then rs 3 * 20 + 8 else 0),
       x := rs 0 * real w + sin (rs 1 * pi * 2) * (if rs 2 < 0.4 then rs 3 * 20 + 8 else 0)\<rparr>"
  by (simp add: respawn_def roll_loopRadius_def Math_random_def Let_def
      numeral_2_eq_2 numeral_3_eq_3)

lemma respawn_draws:
  "snd (respawn w h q rs) = (\<lambda>n. rs (n + (if rs 2 < 0.4 then 4 else 3)))"
  by (simp add: respawn_def roll_loopRadius_def Math_random_def Let_def
      numeral_2_eq_2 numeral_3_eq_3 eval_nat_numeral)

lemma update_position_y: "y (update_position p) = y p - speed p"
  by (simp add: update_position_def Let_def)

lemma update_position_size: "size_px (update_position p) = size_px p"
  by (simp add: update_position_def Let_def)

lemma wrap_only_x: "wrap_horizontally w q = q\<lparr>x := x (wrap_horizontally w q)\<rparr>"
  by (simp add: wrap_horizontally_def Let_def)

lemma wrap_x:
  "x (wrap_horizontally w q) =
     (if x q < - 10 then real w + 10 else if real w + 10 < x q then - 10 else x q)"
  by (simp add: wrap_horizontally_def Let_def)

lemma wrap_range: "- 10 \<le> x (wrap_horizontally w q) \<and> x (wrap_horizontally w q) \<le> real w + 10"
  by (simp add: wrap_x)

lemma wrap_fires: "(wrap_horizontally w q \<noteq> q) = (x q < - 10 \<or> real w + 10 < x q)"
proof -
  have "(wrap_horizontally w q = q) = (x (wrap_horizontally w q) = x q)"
    by (metis wrap_only_x particle.surjective particle.update_convs(2))
  then show ?thesis by (auto simp: wrap_x)
qed

lemma animateEmber_fst:
  "fst (animateEmber t w h p rs) =
     wrap_horizontally w (fst (respawn_offscreen w h (update_position (drawEmber p t)) rs))"
  by (simp add: animateEmber_def Let_def split_beta)

lemma animateEmber_y:
  "y (fst (animateEmber t w h p rs)) =
     (if y p - speed p < - (baseSize p * flicker p t)
      then real h + baseSize p * flicker p t else y p - speed p)"
  by (simp add: animateEmber_fst wrap_horizontally_def Let_def respawn_offscreen_def
      respawn_result update_position_y update_position_size drawEmber_def)


lemma respawn_offscreen_idle:
  "\<not> y q < - size_px q \<Longrightarrow> respawn_offscreen w h q rs = (q, rs)"
  by (simp add: respawn_offscreen_def)

lemma respawn_offscreen_fires:
  "y q < - size_px q \<Longrightarrow> respawn_offscreen w h q rs = respawn w h q rs"
  by (simp add: respawn_offscreen_def)

lemma respawn_ranges:
  assumes "unit_draws rs" and "0 < w"
  shows "0 \<le> baseX (fst (respawn w h q rs)) \<and> baseX (fst (respawn w h q rs)) < real w \<and>
     0 \<le> angle (fst (respawn w h q rs)) \<and> angle (fst (respawn w h q rs)) < 2 * pi \<and>
     (loopRadius (fst (respawn w h q rs)) = 0 \<or>
      8 \<le> loopRadius (fst (respawn w h q rs)) \<and> loopRadius (fst (respawn w h q rs)) < 28)"
  using unit_drawsD [OF assms(1), of 0] unit_drawsD [OF assms(1), of 1]
    unit_drawsD [OF assms(1), of 3] assms(2)
  by (simp add: respawn_result)

lemma drawn_size_nonneg: "0 \<le> baseSize p \<Longrightarrow> 0 \<le> baseSize p * flicker p t"
  using flicker_range [of p t] by simp

text \<open>
  C1. In one frame the respawn branch is taken exactly when, after the rise, \<open>y\<close> is
  below minus the current radius (the base radius times this frame's flicker). If it is
  not taken, the particle and the sequence of draws pass through unchanged. If it is
  taken, \<open>y\<close> becomes the canvas height plus the current radius, which is at least the
  canvas height; \<open>baseX\<close> is a fresh draw times the width, in the half-open interval
  from 0 to the width; the angle is a fresh draw times two pi; the loop radius is 0 or
  lies from 8 up to but excluding 28; \<open>x\<close> is recomputed from the three; and three or
  four draws are used up. A particle with speed 1, \<open>y = 5\<close> and current radius 3 has
  \<open>y = 4\<close> after the step; with \<open>y = -3.0001\<close> the step respawns it at the height plus 3.
  (That the draws are uniform is a property of \<^verbatim>\<open>Math.random\<close>, not of this code.)
\<close>

theorem vertical_respawn:
  assumes "unit_draws rs" and "0 \<le> baseSize p" and "0 < w"
  shows
    "y (update_position (drawEmber p t)) = y p - speed p \<and>
     size_px (update_position (drawEmber p t)) = baseSize p * flicker p t \<and>
     (\<not> y p - speed p < - (baseSize p * flicker p t) \<longrightarrow>
        respawn_offscreen w h (update_position (drawEmber p t)) rs
          = (update_position (drawEmber p t), rs) \<and>
        y (fst (animateEmber t w h p rs)) = y p - speed p \<and>
        snd (animateEmber t w h p rs) = rs) \<and>
     (y p - speed p < - (baseSize p * flicker p t) \<longrightarrow>
        respawn_offscreen w h (update_position (drawEmber p t)) rs
          = respawn w h (update_position (drawEmber p t)) rs \<and>
        snd (animateEmber t w h p rs) = (\<lambda>n. rs (n + (if rs 2 < 0.4 then 4 else 3))) \<and>
        y (fst (animateEmber t w h p rs)) = real h + baseSize p * flicker p t \<and>
        real h \<le> y (fst (animateEmber t w h p rs)) \<and>
        baseX (fst (animateEmber t w h p rs)) = rs 0 * real w \<and>
        0 \<le> baseX (fst (animateEmber t w h p rs)) \<and>
        baseX (fst (animateEmber t w h p rs)) < real w \<and>
        angle (fst (animateEmber t w h p rs)) = rs 1 * pi * 2 \<and>
        0 \<le> angle (fst (animateEmber t w h p rs)) \<and>
        angle (fst (animateEmber t w h p rs)) < 2 * pi \<and>
        loopRadius (fst (animateEmber t w h p rs)) = (if rs 2 < 0.4 then rs 3 * 20 + 8 else 0) \<and>
        (loopRadius (fst (animateEmber t w h p rs)) = 0 \<or>
         8 \<le> loopRadius (fst (animateEmber t w h p rs)) \<and>
         loopRadius (fst (animateEmber t w h p rs)) < 28) \<and>
        x (fst (respawn w h (update_position (drawEmber p t)) rs))
          = baseX (fst (respawn w h (update_position (drawEmber p t)) rs))
            + sin (angle (fst (respawn w h (update_position (drawEmber p t)) rs)))
              * loopRadius (fst (respawn w h (update_position (drawEmber p t)) rs))) \<and>
     (speed p = 1 \<and> y p = 5 \<and> baseSize p * flicker p t = 3 \<and> loopRadius p = 0 \<longrightarrow>
        y (fst (animateEmber t w h p rs)) = 4) \<and>
     (speed p = 1 \<and> y p = - 3.0001 \<and> baseSize p * flicker p t = 3 \<and> loopRadius p = 0 \<longrightarrow>
        y (fst (animateEmber t w h p rs)) = real h + 3) \<and>
     (speed e = 1 \<and> y e = 5 \<and> size_px e = 3 \<and> loopRadius e = 0 \<longrightarrow>
        y (fst (respawn_offscreen w h (update_position e) rs)) = 4) \<and>
     (speed e = 1 \<and> y e = - 3.0001 \<and> size_px e = 3 \<and> loopRadius e = 0 \<longrightarrow>
        y (fst (respawn_offscreen w h (update_position e) rs)) = real h + 3)"
    (is "?Y \<and> ?S \<and> (?idle \<longrightarrow> ?A) \<and> (?fire \<longrightarrow> ?B) \<and> ?C \<and> ?D \<and> ?E \<and> ?F")
proof -
  let ?q = "update_position (drawEmber p t)"
  have qy: ?Y
    by (simp add: update_position_y drawEmber_def)
  have qs: ?S
    by (simp add: update_position_size drawEmber_def)
  have wy: "y (wrap_horizontally w r) = y r" "baseX (wrap_horizontally w r) = baseX r"
    "angle (wrap_horizontally w r) = angle r" "loopRadius (wrap_horizontally w r) = loopRadius r"
    for r
    by (simp_all add: wrap_horizontally_def Let_def)
  have A: "?idle \<longrightarrow> ?A"
  proof
    assume c: ?idle
    have idle: "respawn_offscreen w h ?q rs = (?q, rs)"
      using respawn_offscreen_idle [of ?q w h rs] c by (simp add: qy qs)
    then have "snd (animateEmber t w h p rs) = rs"
      by (simp add: animateEmber_def Let_def)
    with idle c show ?A by (simp add: animateEmber_y)
  qed
  have B: "?fire \<longrightarrow> ?B"
  proof
    assume c: ?fire
    have fires: "respawn_offscreen w h ?q rs = respawn w h ?q rs"
      using respawn_offscreen_fires [of ?q w h rs] c by (simp add: qy qs)
    have step: "fst (animateEmber t w h p rs) = wrap_horizontally w (fst (respawn w h ?q rs))"
      using fires by (simp add: animateEmber_fst)
    have used: "snd (animateEmber t w h p rs) = (\<lambda>n. rs (n + (if rs 2 < 0.4 then 4 else 3)))"
      using fires respawn_draws [of w h ?q rs] by (simp add: animateEmber_def Let_def split_beta)
    have ry: "y (fst (respawn w h ?q rs)) = real h + baseSize p * flicker p t"
      by (simp add: respawn_result qs)
    have rx: "x (fst (respawn w h ?q rs))
          = baseX (fst (respawn w h ?q rs))
            + sin (angle (fst (respawn w h ?q rs))) * loopRadius (fst (respawn w h ?q rs))"
      by (simp add: respawn_result)
    have rv: "baseX (fst (respawn w h ?q rs)) = rs 0 * real w"
      "angle (fst (respawn w h ?q rs)) = rs 1 * pi * 2"
      "loopRadius (fst (respawn w h ?q rs)) = (if rs 2 < 0.4 then rs 3 * 20 + 8 else 0)"
      by (simp_all add: respawn_result)
    note rr = respawn_ranges [OF assms(1) assms(3), of h ?q]
    note nn = drawn_size_nonneg [OF assms(2), of t]
    show ?B
      unfolding step wy using fires used ry rx rv rr nn by simp
  qed
  have C: ?C
    by (simp add: animateEmber_y)
  have D: ?D
    by (simp add: animateEmber_y)
  have E: ?E
    by (simp add: respawn_offscreen_def update_position_y update_position_size)
  have F: ?F
    by (simp add: respawn_offscreen_def update_position_y update_position_size respawn_result)
  from qy qs A B C D E F show ?thesis by blast
qed

lemma sample_draws_unit: "unit_draws draws_zero" "unit_draws draws_half"
  by (simp_all add: unit_draws_def draws_zero_def draws_half_def)

lemma sample_flicker:
  "flicker ember_rising 0 = 3 / 10" "flicker ember_leaving 0 = 3 / 10"
  "flicker ember_looping 0 = 3 / 10"
  by (simp_all add: flicker_def ember_rising_def ember_leaving_def ember_looping_def)

theorem vertical_respawn_witness:
  "unit_draws draws_zero \<and> 0 \<le> baseSize ember_rising \<and> (0::nat) < 800 \<and>
   speed ember_rising = 1 \<and> y ember_rising = 5 \<and>
   baseSize ember_rising * flicker ember_rising 0 = 3 \<and> loopRadius ember_rising = 0 \<and>
   y (fst (animateEmber 0 800 600 ember_rising draws_zero)) = 4 \<and>
   snd (animateEmber 0 800 600 ember_rising draws_zero) = draws_zero \<and>
   0 \<le> baseSize ember_leaving \<and>
   speed ember_leaving = 1 \<and> y ember_leaving = - 3.0001 \<and>
   baseSize ember_leaving * flicker ember_leaving 0 = 3 \<and> loopRadius ember_leaving = 0 \<and>
   y ember_leaving - speed ember_leaving < - (baseSize ember_leaving * flicker ember_leaving 0) \<and>
   y (fst (animateEmber 0 800 600 ember_leaving draws_zero)) = 603 \<and>
   baseX (fst (animateEmber 0 800 600 ember_leaving draws_zero)) = 0 \<and>
   angle (fst (animateEmber 0 800 600 ember_leaving draws_zero)) = 0 \<and>
   loopRadius (fst (animateEmber 0 800 600 ember_leaving draws_zero)) = 8"
proof -
  have r: "0 \<le> baseSize ember_rising" "speed ember_rising = 1" "y ember_rising = 5"
    "loopRadius ember_rising = 0" "baseSize ember_rising * flicker ember_rising 0 = 3"
    by (simp_all add: sample_flicker) (simp_all add: ember_rising_def)
  have l: "0 \<le> baseSize ember_leaving" "speed ember_leaving = 1" "y ember_leaving = - 3.0001"
    "loopRadius ember_leaving = 0" "baseSize ember_leaving * flicker ember_leaving 0 = 3"
    by (simp_all add: sample_flicker) (simp_all add: ember_leaving_def ember_rising_def)
  have w: "(0::nat) < 800" by simp
  have z: "draws_zero n = 0" for n
    by (simp add: draws_zero_def)
  have idle: "\<not> y ember_rising - speed ember_rising
      < - (baseSize ember_rising * flicker ember_rising 0)"
    by (simp add: r)
  have fires: "y ember_leaving - speed ember_leaving
      < - (baseSize ember_leaving * flicker ember_leaving 0)"
    by (simp add: l)
  show ?thesis
    using vertical_respawn [OF sample_draws_unit(1) r(1) w, of 0 600 ember_rising]
      vertical_respawn [OF sample_draws_unit(1) l(1) w, of 0 600 ember_rising]
      sample_draws_unit(1) r l w idle fires
    by (simp add: z)
qed


text \<open>
  C3. After one step of the per-frame update on any particle, respawn or not, \<open>x\<close> lies
  between -10 and the width plus 10. The wrap is the last thing the step does. It
  changes the particle exactly when the \<open>x\<close> it is given (the value after the move and,
  in a respawn step, after the respawn's recomputation) is below -10 or above the width
  plus 10; it then puts \<open>x\<close> on the opposite edge; and it assigns no field but \<open>x\<close>.
\<close>

theorem horizontal_wrap:
  "- 10 \<le> x (fst (animateEmber t w h p rs)) \<and>
   x (fst (animateEmber t w h p rs)) \<le> real w + 10 \<and>
   fst (animateEmber t w h p rs)
     = wrap_horizontally w (fst (respawn_offscreen w h (update_position (drawEmber p t)) rs)) \<and>
   x (wrap_horizontally w q)
     = (if x q < - 10 then real w + 10 else if real w + 10 < x q then - 10 else x q) \<and>
   (wrap_horizontally w q \<noteq> q) = (x q < - 10 \<or> real w + 10 < x q) \<and>
   wrap_horizontally w q = q\<lparr>x := x (wrap_horizontally w q)\<rparr> \<and>
   - 10 \<le> x (wrap_horizontally w q) \<and> x (wrap_horizontally w q) \<le> real w + 10"
proof -
  have "- 10 \<le> x (fst (animateEmber t w h p rs)) \<and>
      x (fst (animateEmber t w h p rs)) \<le> real w + 10"
    unfolding animateEmber_fst by (rule wrap_range)
  moreover note animateEmber_fst [of t w h p rs] wrap_x [of w q] wrap_fires [of w q]
    wrap_only_x [of w q] wrap_range [of w q]
  ultimately show ?thesis by blast
qed

lemma looping_forgets_x:
  assumes "0 < loopRadius p"
  shows "update_position (drawEmber (p\<lparr>x := v\<rparr>) t) = update_position (drawEmber p t)"
  using assms by (simp add: update_position_def drawEmber_def flicker_def Let_def)

text \<open>
  C10. The wrap assigns only \<open>x\<close> and leaves \<open>baseX\<close> as it was. For a particle whose
  loop radius is positive the next step overwrites \<open>x\<close> with the drifted \<open>baseX\<close> plus
  the sine of the advanced angle times the loop radius, so the step after a wrap gives
  the same particle as the step without the wrap.
\<close>

theorem wrap_has_no_lasting_effect_when_looping:
  assumes "0 < loopRadius p"
  shows
    "wrap_horizontally w0 p = p\<lparr>x := x (wrap_horizontally w0 p)\<rparr> \<and>
     baseX (wrap_horizontally w0 p) = baseX p \<and>
     x (update_position (drawEmber (wrap_horizontally w0 p) t))
       = (baseX p + drift p) + sin (angle p + angularSpeed p) * loopRadius p \<and>
     update_position (drawEmber (wrap_horizontally w0 p) t) = update_position (drawEmber p t) \<and>
     animateEmber t w h (wrap_horizontally w0 p) rs = animateEmber t w h p rs"
proof -
  have only: "wrap_horizontally w0 p = p\<lparr>x := x (wrap_horizontally w0 p)\<rparr>"
    by (rule wrap_only_x)
  have bx: "baseX (wrap_horizontally w0 p) = baseX p"
    by (simp add: wrap_horizontally_def Let_def)
  have same: "update_position (drawEmber (wrap_horizontally w0 p) t)
      = update_position (drawEmber p t)"
    using looping_forgets_x [OF assms, of "x (wrap_horizontally w0 p)" t] only by simp
  have nx: "x (update_position (drawEmber p t))
      = (baseX p + drift p) + sin (angle p + angularSpeed p) * loopRadius p"
    using assms by (simp add: update_position_def drawEmber_def Let_def)
  have step: "animateEmber t w h (wrap_horizontally w0 p) rs = animateEmber t w h p rs"
    by (simp add: animateEmber_def Let_def same)
  from only bx same nx step show ?thesis by simp
qed

theorem wrap_has_no_lasting_effect_when_looping_witness:
  "0 < loopRadius ember_looping \<and>
   x ember_looping = - 32 \<and>
   x (wrap_horizontally 800 ember_looping) = 810 \<and>
   baseX (wrap_horizontally 800 ember_looping) = - 40 \<and>
   animateEmber 0 800 600 (wrap_horizontally 800 ember_looping) draws_zero
     = animateEmber 0 800 600 ember_looping draws_zero"
proof -
  have lr: "0 < loopRadius ember_looping"
    by (simp add: ember_looping_def ember_rising_def)
  have v: "x ember_looping = - 32" "baseX ember_looping = - 40"
    by (simp_all add: ember_looping_def ember_rising_def)
  have wx: "x (wrap_horizontally 800 ember_looping) = 810"
    by (simp add: wrap_x v)
  show ?thesis
    using wrap_has_no_lasting_effect_when_looping [OF lr, of 800 0 800 600 draws_zero] lr v wx
    by metis
qed

lemma animateEmber_kept:
  "speed (fst (animateEmber t w h p rs)) = speed p"
  "drift (fst (animateEmber t w h p rs)) = drift p"
  "baseSize (fst (animateEmber t w h p rs)) = baseSize p"
  "flickerPhase (fst (animateEmber t w h p rs)) = flickerPhase p"
  "angularSpeed (fst (animateEmber t w h p rs)) = angularSpeed p"
  "size_px (fst (animateEmber t w h p rs)) = baseSize p * flicker p t"
  by (simp_all add: animateEmber_fst wrap_horizontally_def respawn_offscreen_def respawn_result
      update_position_def drawEmber_def Let_def)

lemma animateParticles_length: "length (fst (animateParticles t w h ps rs)) = length ps"
  by (induction ps arbitrary: rs) (simp_all add: split_beta Let_def)

lemma animation_frames_length: "length (fst (animation_frames fs ps rs)) = length ps"
proof (induction fs arbitrary: ps rs)
  case Nil
  then show ?case by simp
next
  case (Cons f fs)
  obtain t w h where f: "f = (t, w, h)" by (cases f) auto
  show ?case
    using Cons.IH [of "fst (animateParticles t w h ps rs)" "snd (animateParticles t w h ps rs)"]
    by (simp add: f split_beta animateParticles_length)
qed

lemma pushEmbers_length: "length (fst (pushEmbers n w h ps rs)) = length ps + n"
  by (induction n arbitrary: ps rs) (simp_all add: split_beta)

lemma initial_particles_length: "length (fst (initial_particles w h rs)) = 90"
  by (simp add: initial_particles_def EMBER_COUNT_def pushEmbers_length)

text \<open>
  C2, as amended. A respawn updates the particle in place and reassigns exactly five of
  its fields: \<open>y\<close>, \<open>baseX\<close>, \<open>angle\<close>, \<open>loopRadius\<close> and \<open>x\<close>. The rise speed, the
  horizontal drift, the base radius, the flicker phase and the angular speed keep the
  values they had before the respawn, as they do in every step; the current radius
  keeps the value this frame's flicker gave it. The collection keeps its length in
  every frame: 90 particles from the set-up on.
\<close>

theorem respawn_resets_position_fields_only:
  "fst (respawn w h q rs) =
     q\<lparr>y := real h + size_px q,
       baseX := rs 0 * real w,
       angle := rs 1 * pi * 2,
       loopRadius := (if rs 2 < 0.4 then rs 3 * 20 + 8 else 0),
       x := rs 0 * real w + sin (rs 1 * pi * 2) * (if rs 2 < 0.4 then rs 3 * 20 + 8 else 0)\<rparr> \<and>
   speed (fst (respawn w h q rs)) = speed q \<and>
   drift (fst (respawn w h q rs)) = drift q \<and>
   baseSize (fst (respawn w h q rs)) = baseSize q \<and>
   size_px (fst (respawn w h q rs)) = size_px q \<and>
   flickerPhase (fst (respawn w h q rs)) = flickerPhase q \<and>
   angularSpeed (fst (respawn w h q rs)) = angularSpeed q \<and>
   speed (fst (animateEmber t w h p rs)) = speed p \<and>
   drift (fst (animateEmber t w h p rs)) = drift p \<and>
   baseSize (fst (animateEmber t w h p rs)) = baseSize p \<and>
   flickerPhase (fst (animateEmber t w h p rs)) = flickerPhase p \<and>
   angularSpeed (fst (animateEmber t w h p rs)) = angularSpeed p \<and>
   length (fst (animateParticles t w h ps rs)) = length ps \<and>
   length (fst (animation_frames fs ps rs)) = length ps \<and>
   length (fst (animation_frames fs (fst (initial_particles w0 h0 rs0)) rs)) = 90"
  by (simp add: respawn_result animateEmber_kept animateParticles_length animation_frames_length
      initial_particles_length)

text \<open>
  The claim as first stated fails: a particle that leaves through the top is respawned
  (\<open>y\<close> becomes 603 on a canvas of height 600), and under two different sequences of
  draws its speed, drift, base radius, flicker phase and angular speed are the ones it
  had before.
\<close>

theorem respawn_keeps_motion_attributes_counterexample:
  "y ember_leaving - speed ember_leaving < - (baseSize ember_leaving * flicker ember_leaving 0) \<and>
   y (fst (animateEmber 0 800 600 ember_leaving draws_zero)) = 603 \<and>
   speed ember_leaving = 1 \<and>
   speed (fst (animateEmber 0 800 600 ember_leaving draws_zero)) = 1 \<and>
   speed (fst (animateEmber 0 800 600 ember_leaving draws_half)) = 1 \<and>
   drift ember_leaving = 1 / 10 \<and>
   drift (fst (animateEmber 0 800 600 ember_leaving draws_zero)) = 1 / 10 \<and>
   drift (fst (animateEmber 0 800 600 ember_leaving draws_half)) = 1 / 10 \<and>
   baseSize ember_leaving = 10 \<and>
   baseSize (fst (animateEmber 0 800 600 ember_leaving draws_zero)) = 10 \<and>
   baseSize (fst (animateEmber 0 800 600 ember_leaving draws_half)) = 10 \<and>
   flickerPhase ember_leaving = 0 \<and>
   flickerPhase (fst (animateEmber 0 800 600 ember_leaving draws_zero)) = 0 \<and>
   flickerPhase (fst (animateEmber 0 800 600 ember_leaving draws_half)) = 0 \<and>
   angularSpeed ember_leaving = 1 / 20 \<and>
   angularSpeed (fst (animateEmber 0 800 600 ember_leaving draws_zero)) = 1 / 20 \<and>
   angularSpeed (fst (animateEmber 0 800 600 ember_leaving draws_half)) = 1 / 20"
proof -
  have v: "y ember_leaving = - 3.0001" "speed ember_leaving = 1" "drift ember_leaving = 1 / 10"
    "baseSize ember_leaving = 10" "flickerPhase ember_leaving = 0"
    "angularSpeed ember_leaving = 1 / 20"
    by (simp_all add: ember_leaving_def ember_rising_def)
  show ?thesis
    by (simp add: animateEmber_kept animateEmber_y sample_flicker v)
qed

lemma newEmber_baseSize:
  assumes "unit_draws rs"
  shows "2 \<le> baseSize (fst (newEmber w h rs)) \<and> baseSize (fst (newEmber w h rs)) < 5"
  using unit_drawsD [OF assms, of 0]
  by (simp add: newEmber_def Let_def split_beta)

text \<open>
  C9, as amended. Whatever value between -1 and 1 the host's sine returns, the flicker
  scalar of line 32, computed in binary64, is positive and at most 0.5, and at least
  0.09999999999999997779..., the difference of the doubles nearest 0.3 and 0.2. Each
  frame sets the current radius to the rounded product of the base radius and the
  flicker and leaves the base radius alone; with a base radius of at least 2 (every
  particle is created with one: line 11 in binary64 gives at least 2) the current radius
  is positive, and at most half the base radius when that is a binary64 number.
\<close>

theorem flicker_positive_at_most_half:
  assumes "sine_in_range msin"
  shows
    "0 < flicker64 msin p t \<and> flicker64 msin p t \<le> 1 / 2 \<and>
     1801439850948198 / 2 ^ 54 \<le> flicker64 msin p t \<and>
     size_px (drawEmber64 msin p t) = fl64 (baseSize p * flicker64 msin p t) \<and>
     baseSize (drawEmber64 msin p t) = baseSize p \<and>
     (2 \<le> baseSize p \<longrightarrow> 0 < size_px (drawEmber64 msin p t)) \<and>
     (2 \<le> baseSize p \<and> fl64 (baseSize p) = baseSize p \<longrightarrow>
        size_px (drawEmber64 msin p t) \<le> baseSize p / 2) \<and>
     (0 \<le> r \<longrightarrow> 2 \<le> fl64 (fl64 (r * 3) + 2))"
proof -
  note b = flicker64_bounds [OF assms, of p t]
  have pos: "0 < flicker64 msin p t" using b by simp
  have s: "2 \<le> baseSize p \<longrightarrow> 0 < size_px (drawEmber64 msin p t)"
    using size64_positive [OF assms, of p t] by auto
  have h: "2 \<le> baseSize p \<and> fl64 (baseSize p) = baseSize p \<longrightarrow>
        size_px (drawEmber64 msin p t) \<le> baseSize p / 2"
    using size64_half [OF assms, of p t] by blast
  have k: "baseSize (drawEmber64 msin p t) = baseSize p" by (simp add: drawEmber64_def)
  from b pos s h k drawEmber64_size [of msin p t] created_baseSize64 [of r]
  show ?thesis by blast
qed

lemma fl64_ten: "fl64 10 = 10"
  using fl64_exact [of 10 0] by simp

theorem flicker_positive_at_most_half_witness:
  "sine_in_range sin \<and> 2 \<le> baseSize ember_rising \<and>
   fl64 (baseSize ember_rising) = baseSize ember_rising \<and>
   0 < flicker64 sin ember_rising 0 \<and> flicker64 sin ember_rising 0 \<le> 1 / 2 \<and>
   0 < size_px (drawEmber64 sin ember_rising 0) \<and>
   size_px (drawEmber64 sin ember_rising 0) \<le> baseSize ember_rising / 2 \<and>
   (0::real) \<le> 1 / 2 \<and> 2 \<le> fl64 (fl64 (1 / 2 * 3) + 2)"
proof -
  have r: "sine_in_range sin" by (simp add: sine_in_range_def)
  have b: "2 \<le> baseSize ember_rising" "fl64 (baseSize ember_rising) = baseSize ember_rising"
    by (simp_all add: ember_rising_def fl64_ten)
  have h: "(0::real) \<le> 1 / 2" by simp
  show ?thesis
    using flicker_positive_at_most_half [OF r, of ember_rising 0 "1 / 2"] r b h by blast
qed

text \<open>
  The claim as first stated, with the lower bound 0.1, fails: when the sine returns -1
  (as \<^verbatim>\<open>Math.sin\<close> does at the double nearest three halves of pi) the flicker is
  the double just below 0.1.
\<close>

theorem flicker_below_tenth_counterexample:
  "flicker_of_sine (- 1) = 1801439850948198 / 2 ^ 54 \<and>
   flicker_of_sine (- 1) < 1 / 10 \<and>
   \<not> 1 / 10 \<le> flicker_of_sine (- 1)"
  by (simp add: flicker_of_sine_trough)

end
